theory Spec2Isabelle
  imports Main "HOL-Library.Word"
begin

section \<open>JavaScript strings and values\<close>

text \<open>
  A JavaScript string is a finite sequence of 16-bit code units. The functions of
  \<^verbatim>\<open>frontend/src/config/router.js\<close> and of the Vite configuration only compare code
  units with \<^verbatim>\<open>'/'\<close> and with the white space set of \<^verbatim>\<open>String.prototype.trim\<close>,
  so a string is modelled as a list of 16-bit words.
\<close>

type_synonym jschar = "16 word"
type_synonym jsstring = "jschar list"

text \<open>ASCII literals of the source, written as Isabelle strings.\<close>

definition lit :: "string \<Rightarrow> jsstring" where
  "lit cs = map of_char cs"

abbreviation slash :: jschar where
  "slash \<equiv> 0x2F"

text \<open>
  The argument \<^verbatim>\<open>base\<close> is untyped in the source. It comes from an environment
  variable, so it is a string or \<^verbatim>\<open>undefined\<close>; \<^verbatim>\<open>null\<close> and the booleans are
  kept as the other values a caller can pass, to make the behaviour of \<^verbatim>\<open>!base\<close> and
  of the method call \<^verbatim>\<open>base.trim()\<close> on a non-string visible.
\<close>

datatype jsvalue = JSUndefined | JSNull | JSBoolean bool | JSString jsstring

datatype error = TypeError

text \<open>\<^verbatim>\<open>ToBoolean\<close>: the truth value that \<^verbatim>\<open>!base\<close> and \<^verbatim>\<open>||\<close> test.\<close>

fun truthy :: "jsvalue \<Rightarrow> bool" where
  "truthy JSUndefined = False"
| "truthy JSNull = False"
| "truthy (JSBoolean b) = b"
| "truthy (JSString s) = (s \<noteq> [])"

subsection \<open>\<^verbatim>\<open>String.prototype.trim\<close>\<close>

text \<open>
  The code units that \<^verbatim>\<open>trim\<close> removes: ECMAScript \<^verbatim>\<open>WhiteSpace\<close> (TAB, VT, FF, SP,
  NBSP, ZWNBSP and the category Zs) and \<^verbatim>\<open>LineTerminator\<close> (LF, CR, LS, PS).
\<close>

definition isWhiteSpace :: "jschar \<Rightarrow> bool" where
  "isWhiteSpace c \<longleftrightarrow>
     c = 0x0009 \<or> c = 0x000A \<or> c = 0x000B \<or> c = 0x000C \<or> c = 0x000D \<or>
     c = 0x0020 \<or> c = 0x00A0 \<or> c = 0x1680 \<or>
     (0x2000 \<le> c \<and> c \<le> 0x200A) \<or>
     c = 0x2028 \<or> c = 0x2029 \<or> c = 0x202F \<or> c = 0x205F \<or> c = 0x3000 \<or>
     c = 0xFEFF"

definition trimStart :: "jsstring \<Rightarrow> jsstring" where
  "trimStart s = dropWhile isWhiteSpace s"

definition trimEnd :: "jsstring \<Rightarrow> jsstring" where
  "trimEnd s = rev (dropWhile isWhiteSpace (rev s))"

definition trim :: "jsstring \<Rightarrow> jsstring" where
  "trim s = trimEnd (trimStart s)"

text \<open>
  The method call \<^verbatim>\<open>base.trim()\<close>. A boolean has no \<^verbatim>\<open>trim\<close> property, and reading a
  property of \<^verbatim>\<open>undefined\<close> or \<^verbatim>\<open>null\<close> throws: each is a \<^verbatim>\<open>TypeError\<close>.
\<close>

fun callTrim :: "jsvalue \<Rightarrow> error + jsstring" where
  "callTrim (JSString s) = Inr (trim s)"
| "callTrim JSUndefined = Inl TypeError"
| "callTrim JSNull = Inl TypeError"
| "callTrim (JSBoolean b) = Inl TypeError"

subsection \<open>\<^verbatim>\<open>String.prototype.slice\<close>\<close>

text \<open>
  \<^verbatim>\<open>s.slice(start, end)\<close>: a negative index counts from the end of the string, both
  indices are clamped to the string, and an empty range gives the empty string.
\<close>

definition slice :: "jsstring \<Rightarrow> int \<Rightarrow> int \<Rightarrow> jsstring" where
  "slice s start fin =
     (let len = int (length s);
          lo = (if start < 0 then max (len + start) 0 else min start len);
          hi = (if fin < 0 then max (len + fin) 0 else min fin len)
      in take (nat (max (hi - lo) 0)) (drop (nat lo) s))"

section \<open>The regular expression \<^verbatim>\<open>/^\/+|\/+$/g\<close>\<close>

text \<open>
  \<^verbatim>\<open>\/+\<close> is greedy: it takes the whole run of slashes at the current position.
\<close>

fun slashRun :: "jsstring \<Rightarrow> nat" where
  "slashRun [] = 0"
| "slashRun (c # cs) = (if c = slash then Suc (slashRun cs) else 0)"

text \<open>
  The first alternative \<^verbatim>\<open>^\/+\<close>. There is no \<^verbatim>\<open>m\<close> flag, so \<^verbatim>\<open>^\<close> holds at index 0
  only; \<open>atStart\<close> says that the current position is index 0. The result is the length
  of the match.
\<close>

definition matchHead :: "bool \<Rightarrow> jsstring \<Rightarrow> nat option" where
  "matchHead atStart s =
     (if atStart \<and> 0 < slashRun s then Some (slashRun s) else None)"

text \<open>
  The second alternative \<^verbatim>\<open>\/+$\<close>. \<^verbatim>\<open>$\<close> holds at the end of the input only. After a
  run of slashes that stops before the end, backtracking to a shorter run leaves a
  slash as the next code unit, so the alternative matches exactly when the run reaches
  the end of the input.
\<close>

definition matchTail :: "jsstring \<Rightarrow> nat option" where
  "matchTail s =
     (if 0 < slashRun s \<and> slashRun s = length s then Some (slashRun s) else None)"

text \<open>The alternatives are tried in order at one position.\<close>

definition matchAt :: "bool \<Rightarrow> jsstring \<Rightarrow> nat option" where
  "matchAt atStart s =
     (case matchHead atStart s of Some n \<Rightarrow> Some n | None \<Rightarrow> matchTail s)"

text \<open>
  \<^verbatim>\<open>.replace(/^\/+|\/+$/g, '')\<close>: the scan of a global replace. At each position the
  expression is tried; a match is replaced by the empty string and the scan goes on
  behind it, otherwise the code unit is copied and the scan moves one position on.
\<close>

function replaceEdgeSlashes :: "bool \<Rightarrow> jsstring \<Rightarrow> jsstring" where
  "replaceEdgeSlashes atStart [] = []"
| "replaceEdgeSlashes atStart (c # cs) =
     (case matchAt atStart (c # cs) of
        Some n \<Rightarrow> replaceEdgeSlashes False (drop n (c # cs))
      | None \<Rightarrow> c # replaceEdgeSlashes False cs)"
  by pat_completeness auto
termination
  by (relation "measure (\<lambda>(atStart, s). length s)")
     (auto simp: matchAt_def matchHead_def matchTail_def split: if_splits option.splits)

section \<open>The router configuration\<close>

text \<open>
  \<^verbatim>\<open>export const basePath = import.meta.env.PROXY_PREFIX_PATH || ''\<close>, as a function of
  the value of the environment variable.
\<close>

definition basePath :: "jsvalue \<Rightarrow> jsvalue" where
  "basePath env = (if truthy env then env else JSString [])"

text \<open>
  \<^verbatim>\<open>normalizeRouterBase(base)\<close>. The guard \<^verbatim>\<open>!base || base.trim() === '' || base === '/'\<close>
  is evaluated from left to right and stops at the first true operand.
\<close>

definition normalizeRouterBase :: "jsvalue \<Rightarrow> error + jsstring" where
  "normalizeRouterBase base =
     (if \<not> truthy base then Inr (lit ''/'')
      else case callTrim base of
        Inl e \<Rightarrow> Inl e
      | Inr t \<Rightarrow>
          if t = lit '''' then Inr (lit ''/'')
          else if base = JSString (lit ''/'') then Inr (lit ''/'')
          else (case callTrim base of
            Inl e \<Rightarrow> Inl e
          | Inr t' \<Rightarrow>
              let normalized = replaceEdgeSlashes True t'
              in if normalized = [] then Inr (lit ''/'')
                 else Inr (lit ''/'' @ normalized @ lit ''/'')))"

definition ROUTER_BASE :: "jsvalue \<Rightarrow> error + jsstring" where
  "ROUTER_BASE env = normalizeRouterBase (basePath env)"

text \<open>\<^verbatim>\<open>normalizeRequestPrefix(base)\<close>, with the same guard.\<close>

definition normalizeRequestPrefix :: "jsvalue \<Rightarrow> error + jsstring" where
  "normalizeRequestPrefix base =
     (if \<not> truthy base then Inr (lit '''')
      else case callTrim base of
        Inl e \<Rightarrow> Inl e
      | Inr t \<Rightarrow>
          if t = lit '''' then Inr (lit '''')
          else if base = JSString (lit ''/'') then Inr (lit '''')
          else (case callTrim base of
            Inl e \<Rightarrow> Inl e
          | Inr t' \<Rightarrow>
              let normalized = replaceEdgeSlashes True t'
              in if normalized = [] then Inr (lit '''')
                 else Inr (lit ''/'' @ normalized)))"

definition API_REQUEST_PREFIX :: "jsvalue \<Rightarrow> error + jsstring" where
  "API_REQUEST_PREFIX env = normalizeRequestPrefix (basePath env)"

section \<open>The Vite configuration\<close>

text \<open>
  \<^verbatim>\<open>normalizeBase(base)\<close> of the build configuration. Its guard is
  \<^verbatim>\<open>!base || base === '/'\<close>: it does not test \<^verbatim>\<open>base.trim() === ''\<close>.
\<close>

definition normalizeBase :: "jsvalue \<Rightarrow> error + jsstring" where
  "normalizeBase base =
     (if \<not> truthy base then Inr (lit ''/'')
      else if base = JSString (lit ''/'') then Inr (lit ''/'')
      else case callTrim base of
        Inl e \<Rightarrow> Inl e
      | Inr t \<Rightarrow>
          let normalized = replaceEdgeSlashes True t
          in if normalized = [] then Inr (lit ''/'')
             else Inr (lit ''/'' @ normalized @ lit ''/''))"

section \<open>The specification's wording\<close>

text \<open>
  The specification describes the normalisation without the regular expression: strip
  all leading slashes and all trailing slashes of the trimmed input. That gives
  \<open>core\<close>.
\<close>

definition stripLeadingSlashes :: "jsstring \<Rightarrow> jsstring" where
  "stripLeadingSlashes s = dropWhile (\<lambda>c. c = slash) s"

definition stripTrailingSlashes :: "jsstring \<Rightarrow> jsstring" where
  "stripTrailingSlashes s = rev (dropWhile (\<lambda>c. c = slash) (rev s))"

definition core :: "jsstring \<Rightarrow> jsstring" where
  "core s = stripTrailingSlashes (stripLeadingSlashes (trim s))"

text \<open>
  The specification's \<open>normalizeRouterBase\<close>: \<^verbatim>\<open>"/"\<close> for an input that is empty, trims
  to empty or is exactly \<^verbatim>\<open>"/"\<close>, and for an empty core; otherwise the core between two
  slashes.
\<close>

definition spec_normalizeRouterBase :: "jsstring \<Rightarrow> jsstring" where
  "spec_normalizeRouterBase s =
     (if s = lit '''' \<or> trim s = lit '''' \<or> s = lit ''/'' then lit ''/''
      else if core s = lit '''' then lit ''/''
      else lit ''/'' @ core s @ lit ''/'')"

text \<open>
  The specification's \<open>normalizeRequestPrefix\<close>: the empty string in the same cases;
  otherwise a slash and the core, with no trailing slash.
\<close>

definition spec_normalizeRequestPrefix :: "jsstring \<Rightarrow> jsstring" where
  "spec_normalizeRequestPrefix s =
     (if s = lit '''' \<or> trim s = lit '''' \<or> s = lit ''/'' \<or> core s = lit ''''
      then lit ''''
      else lit ''/'' @ core s)"

text \<open>
  The shapes the specification speaks of: \<^verbatim>\<open>startsWith('/')\<close>, \<^verbatim>\<open>endsWith('/')\<close> and
  \<^verbatim>\<open>includes('//')\<close>.
\<close>

definition startsWithSlash :: "jsstring \<Rightarrow> bool" where
  "startsWithSlash s = (case s of [] \<Rightarrow> False | c # cs \<Rightarrow> c = slash)"

definition endsWithSlash :: "jsstring \<Rightarrow> bool" where
  "endsWithSlash s = (case rev s of [] \<Rightarrow> False | c # cs \<Rightarrow> c = slash)"

fun hasDoubleSlash :: "jsstring \<Rightarrow> bool" where
  "hasDoubleSlash (a # b # cs) = ((a = slash \<and> b = slash) \<or> hasDoubleSlash (b # cs))"
| "hasDoubleSlash cs = False"

text \<open>The inputs the specification declares: a string, \<^verbatim>\<open>null\<close> or \<^verbatim>\<open>undefined\<close>.\<close>

fun stringOrNullish :: "jsvalue \<Rightarrow> bool" where
  "stringOrNullish (JSString s) = True"
| "stringOrNullish JSUndefined = True"
| "stringOrNullish JSNull = True"
| "stringOrNullish (JSBoolean b) = False"

text \<open>
  The expression \<^verbatim>\<open>normalizeRouterBase(normalizeRouterBase(x).slice(1,-1))\<close> of the
  specification's re-stripping property; an exception of the inner call propagates.
\<close>

definition restripped :: "jsvalue \<Rightarrow> error + jsstring" where
  "restripped x =
     (case normalizeRouterBase x of
        Inl e \<Rightarrow> Inl e
      | Inr r \<Rightarrow> normalizeRouterBase (JSString (slice r 1 (- 1))))"

section \<open>What the global replace computes\<close>

lemma drop_slashRun: "drop (slashRun s) s = dropWhile (\<lambda>c. c = slash) s"
  by (induction s) auto

lemma slashRun_full_iff: "slashRun s = length s \<longleftrightarrow> (\<forall>c \<in> set s. c = slash)"
  by (induction s) auto

lemma stripTrailingSlashes_Cons:
  "stripTrailingSlashes (c # cs) =
     (if \<forall>x \<in> set (c # cs). x = slash then [] else c # stripTrailingSlashes cs)"
  by (auto simp: stripTrailingSlashes_def dropWhile_append)

text \<open>
  Behind index 0 only \<^verbatim>\<open>\/+$\<close> can match, and it matches at the first position from
  which the rest of the input is slashes: the scan removes the trailing run.
\<close>

lemma replaceEdgeSlashes_False: "replaceEdgeSlashes False s = stripTrailingSlashes s"
proof (induction s)
  case Nil
  show ?case by (simp add: stripTrailingSlashes_def)
next
  case (Cons c cs)
  show ?case
  proof (cases "\<forall>x \<in> set (c # cs). x = slash")
    case True
    then have "slashRun (c # cs) = length (c # cs)"
      by (simp only: slashRun_full_iff)
    then have "matchAt False (c # cs) = Some (length (c # cs))"
      by (simp add: matchAt_def matchHead_def matchTail_def)
    then show ?thesis using True
      by (simp add: stripTrailingSlashes_Cons)
  next
    case False
    then have "slashRun (c # cs) \<noteq> length (c # cs)"
      by (simp only: slashRun_full_iff) simp
    then have "matchAt False (c # cs) = None"
      by (simp add: matchAt_def matchHead_def matchTail_def)
    then show ?thesis using False Cons.IH
      by (simp add: stripTrailingSlashes_Cons)
  qed
qed

text \<open>At index 0 the leading run goes first; the rest is scanned as above.\<close>

lemma replaceEdgeSlashes_True:
  "replaceEdgeSlashes True s = stripTrailingSlashes (stripLeadingSlashes s)"
proof (cases s)
  case Nil
  then show ?thesis by (simp add: stripTrailingSlashes_def stripLeadingSlashes_def)
next
  case (Cons c cs)
  show ?thesis
  proof (cases "c = slash")
    case True
    then have "matchAt True (c # cs) = Some (slashRun (c # cs))"
      by (simp add: matchAt_def matchHead_def)
    then have "replaceEdgeSlashes True (c # cs) =
        replaceEdgeSlashes False (drop (slashRun (c # cs)) (c # cs))"
      by simp
    then show ?thesis unfolding Cons
      by (simp only: drop_slashRun replaceEdgeSlashes_False stripLeadingSlashes_def)
  next
    case False
    then have "matchAt True (c # cs) = None"
      by (simp add: matchAt_def matchHead_def matchTail_def)
    then show ?thesis using False unfolding Cons
      by (simp add: replaceEdgeSlashes_False stripTrailingSlashes_Cons stripLeadingSlashes_def)
  qed
qed

section \<open>The three normalisers on a string\<close>

lemma normalizeRouterBase_String:
  "normalizeRouterBase (JSString s) =
     Inr (if s = [] \<or> trim s = [] \<or> s = [slash] \<or> core s = [] then [slash]
          else slash # core s @ [slash])"
  by (simp add: normalizeRouterBase_def lit_def replaceEdgeSlashes_True core_def Let_def)

lemma normalizeRequestPrefix_String:
  "normalizeRequestPrefix (JSString s) =
     Inr (if s = [] \<or> trim s = [] \<or> s = [slash] \<or> core s = [] then []
          else slash # core s)"
  by (simp add: normalizeRequestPrefix_def lit_def replaceEdgeSlashes_True core_def Let_def)

lemma normalizeBase_String:
  "normalizeBase (JSString s) =
     Inr (if s = [] \<or> s = [slash] \<or> core s = [] then [slash]
          else slash # core s @ [slash])"
  by (simp add: normalizeBase_def lit_def replaceEdgeSlashes_True core_def Let_def)

subsection \<open>The core\<close>

lemma isWhiteSpace_slash: "\<not> isWhiteSpace slash"
  by (simp add: isWhiteSpace_def)

lemma trim_slash: "trim [slash] = [slash]"
  by (simp add: trim_def trimStart_def trimEnd_def isWhiteSpace_slash)

lemma core_slash: "core [slash] = []"
  by (simp add: core_def trim_slash stripLeadingSlashes_def stripTrailingSlashes_def)

lemma core_Nil: "core [] = []"
  by (simp add: core_def trim_def trimStart_def trimEnd_def stripLeadingSlashes_def
      stripTrailingSlashes_def)

lemma core_trim_Nil: "trim s = [] \<Longrightarrow> core s = []"
  by (simp add: core_def stripTrailingSlashes_def stripLeadingSlashes_def)

lemma takeWhile_eq_replicate:
  "takeWhile (\<lambda>c. c = a) xs = replicate (length (takeWhile (\<lambda>c. c = a) xs)) a"
  by (induction xs) auto

text \<open>Stripping removes a run of slashes at each end and nothing else.\<close>

lemma strip_decomp:
  "\<exists>m n. t = replicate m slash @ stripTrailingSlashes (stripLeadingSlashes t) @
     replicate n slash"
proof -
  let ?P = "\<lambda>c. c = slash"
  let ?u = "dropWhile ?P t"
  have "rev ?u = takeWhile ?P (rev ?u) @ dropWhile ?P (rev ?u)" by simp
  then have "rev (rev ?u) = rev (takeWhile ?P (rev ?u) @ dropWhile ?P (rev ?u))"
    by (rule arg_cong)
  then have u: "?u = rev (dropWhile ?P (rev ?u)) @ rev (takeWhile ?P (rev ?u))"
    by (simp only: rev_rev_ident rev_append)
  have "takeWhile ?P (rev ?u) = replicate (length (takeWhile ?P (rev ?u))) slash"
    by (rule takeWhile_eq_replicate)
  then have r: "rev (takeWhile ?P (rev ?u)) =
      replicate (length (takeWhile ?P (rev ?u))) slash"
    by (metis rev_replicate)
  have "t = takeWhile ?P t @ ?u" by simp
  also have "takeWhile ?P t = replicate (length (takeWhile ?P t)) slash"
    by (rule takeWhile_eq_replicate)
  finally have "t = replicate (length (takeWhile ?P t)) slash @
      stripTrailingSlashes (stripLeadingSlashes t) @
      replicate (length (takeWhile ?P (rev ?u))) slash"
    using u r by (simp add: stripTrailingSlashes_def stripLeadingSlashes_def)
  then show ?thesis by blast
qed

section \<open>The two copies of the router base\<close>

text \<open>
  Claim C2. For every input, a string as well as \<^verbatim>\<open>null\<close> and \<^verbatim>\<open>undefined\<close>, the
  \<^verbatim>\<open>normalizeBase\<close> of the Vite configuration returns the same string as
  \<^verbatim>\<open>normalizeRouterBase\<close> of the router configuration. The Vite copy lacks the test
  \<^verbatim>\<open>base.trim() === ''\<close>, but a string that trims to empty has an empty core, which
  gives \<^verbatim>\<open>'/'\<close> too. The two also agree on the booleans, where \<^verbatim>\<open>true\<close> makes
  both throw.
\<close>

theorem normalizeBase_eq_normalizeRouterBase:
  "normalizeBase v = normalizeRouterBase v"
proof (cases v)
  case (JSString s)
  show ?thesis unfolding JSString
    by (auto simp: normalizeBase_String normalizeRouterBase_String core_trim_Nil)
qed (simp_all add: normalizeBase_def normalizeRouterBase_def)

section \<open>The algorithms as the specification words them\<close>

text \<open>
  Claim C3. On a string, \<^verbatim>\<open>normalizeRouterBase\<close> is the algorithm of the specification:
  \<^verbatim>\<open>"/"\<close> when the input is empty, trims to empty or is exactly \<^verbatim>\<open>"/"\<close>; otherwise the
  core is the trimmed input without its leading and trailing slashes, an empty core
  gives \<^verbatim>\<open>"/"\<close>, and any other core gives \<^verbatim>\<open>"/" + core + "/"\<close>. The core is the
  trimmed input between a run of slashes at each end, so what lies inside it, slashes
  included, is kept as it is.
\<close>

theorem normalizeRouterBase_algorithm:
  "normalizeRouterBase (JSString s) = Inr (spec_normalizeRouterBase s) \<and>
   (\<exists>m n. trim s = replicate m slash @ core s @ replicate n slash)"
proof
  show "normalizeRouterBase (JSString s) = Inr (spec_normalizeRouterBase s)"
    by (simp add: normalizeRouterBase_String spec_normalizeRouterBase_def lit_def)
  show "\<exists>m n. trim s = replicate m slash @ core s @ replicate n slash"
    unfolding core_def by (rule strip_decomp)
qed

text \<open>
  Claim C4. On a string, \<^verbatim>\<open>normalizeRequestPrefix\<close> is the algorithm of the
  specification: with the same core, the result is \<^verbatim>\<open>""\<close> when the input is empty,
  only white space or \<^verbatim>\<open>"/"\<close>, or when the core is empty; otherwise it is
  \<^verbatim>\<open>"/" + core\<close>, with no trailing slash appended.
\<close>

theorem normalizeRequestPrefix_algorithm:
  "normalizeRequestPrefix (JSString s) = Inr (spec_normalizeRequestPrefix s)"
  by (simp add: normalizeRequestPrefix_String spec_normalizeRequestPrefix_def lit_def)

section \<open>Totality\<close>

text \<open>
  Claim C5. \<^verbatim>\<open>normalizeRouterBase\<close> and \<^verbatim>\<open>normalizeRequestPrefix\<close> return a string, and
  throw nothing, for every string and for \<^verbatim>\<open>null\<close> and \<^verbatim>\<open>undefined\<close>; so does the
  \<^verbatim>\<open>normalizeBase\<close> of the Vite configuration. The scan of the global replace
  terminates on every string, so the three models are total functions and a result
  \<open>Inr\<close> is a returned string.
\<close>

theorem normalizers_total:
  "stringOrNullish v \<Longrightarrow>
   (\<exists>r. normalizeRouterBase v = Inr r) \<and> (\<exists>p. normalizeRequestPrefix v = Inr p) \<and>
   (\<exists>b. normalizeBase v = Inr b)"
proof (cases v)
  case (JSString s)
  show ?thesis unfolding JSString
    by (simp only: normalizeRequestPrefix_String normalizeRouterBase_String
        normalizeBase_String) blast
qed (simp_all add: normalizeRequestPrefix_def normalizeRouterBase_def normalizeBase_def)

theorem normalizers_total_witness:
  "stringOrNullish (JSString (lit '' / ''))
   \<and> (\<exists>r. normalizeRouterBase (JSString (lit '' / '')) = Inr r)
   \<and> (\<exists>p. normalizeRequestPrefix (JSString (lit '' / '')) = Inr p)
   \<and> (\<exists>b. normalizeBase (JSString (lit '' / '')) = Inr b)"
  using normalizers_total [of "JSString (lit '' / '')"] by simp

section \<open>The two derived forms\<close>

text \<open>
  Claim C10. For every input, \<^verbatim>\<open>normalizeRouterBase\<close> returns what
  \<^verbatim>\<open>normalizeRequestPrefix\<close> returns with one \<^verbatim>\<open>'/'\<close> appended; where one throws, so
  does the other.
\<close>

theorem normalizeRouterBase_eq_prefix_slash:
  "normalizeRouterBase v = map_sum id (\<lambda>p. p @ lit ''/'') (normalizeRequestPrefix v)"
proof (cases v)
  case (JSString s)
  show ?thesis unfolding JSString
    by (simp add: normalizeRequestPrefix_String normalizeRouterBase_String lit_def)
qed (simp_all add: normalizeRequestPrefix_def normalizeRouterBase_def lit_def)

section \<open>Concrete inputs\<close>

text \<open>
  Claim C6. The inputs \<^verbatim>\<open>""\<close> and \<^verbatim>\<open>"/"\<close> are treated alike: the router base of both
  is \<^verbatim>\<open>"/"\<close> and the request prefix of both is \<^verbatim>\<open>""\<close>.
\<close>

theorem empty_and_slash_alike:
  "normalizeRouterBase (JSString (lit '''')) = Inr (lit ''/'') \<and>
   normalizeRouterBase (JSString (lit ''/'')) = Inr (lit ''/'') \<and>
   normalizeRequestPrefix (JSString (lit '''')) = Inr (lit '''') \<and>
   normalizeRequestPrefix (JSString (lit ''/'')) = Inr (lit '''')"
  by (intro conjI) code_simp+

text \<open>
  Claim C9. The cases of the specification: \<^verbatim>\<open>"/easy-mcp/"\<close> gives router base
  \<^verbatim>\<open>"/easy-mcp/"\<close> and request prefix \<^verbatim>\<open>"/easy-mcp"\<close>; \<^verbatim>\<open>"app"\<close> gives \<^verbatim>\<open>"/app/"\<close> and
  \<^verbatim>\<open>"/app"\<close>; \<^verbatim>\<open>"///"\<close> gives \<^verbatim>\<open>"/"\<close> and \<^verbatim>\<open>""\<close>; \<^verbatim>\<open>"  /v2/api/  "\<close> gives
  \<^verbatim>\<open>"/v2/api/"\<close> and \<^verbatim>\<open>"/v2/api"\<close>; \<^verbatim>\<open>undefined\<close> gives \<^verbatim>\<open>"/"\<close> and \<^verbatim>\<open>""\<close>, passed
  to the functions as it is or as the value of the environment variable behind the
  exported constants.
\<close>

theorem concrete_cases:
  "normalizeRouterBase (JSString (lit ''/easy-mcp/'')) = Inr (lit ''/easy-mcp/'') \<and>
   normalizeRequestPrefix (JSString (lit ''/easy-mcp/'')) = Inr (lit ''/easy-mcp'') \<and>
   normalizeRouterBase (JSString (lit ''app'')) = Inr (lit ''/app/'') \<and>
   normalizeRequestPrefix (JSString (lit ''app'')) = Inr (lit ''/app'') \<and>
   normalizeRouterBase (JSString (lit ''///'')) = Inr (lit ''/'') \<and>
   normalizeRequestPrefix (JSString (lit ''///'')) = Inr (lit '''') \<and>
   normalizeRouterBase (JSString (lit ''  /v2/api/  '')) = Inr (lit ''/v2/api/'') \<and>
   normalizeRequestPrefix (JSString (lit ''  /v2/api/  '')) = Inr (lit ''/v2/api'') \<and>
   normalizeRouterBase JSUndefined = Inr (lit ''/'') \<and>
   normalizeRequestPrefix JSUndefined = Inr (lit '''') \<and>
   ROUTER_BASE JSUndefined = Inr (lit ''/'') \<and>
   API_REQUEST_PREFIX JSUndefined = Inr (lit '''')"
  by (intro conjI) code_simp+

section \<open>The shape of the results\<close>

text \<open>A non-empty core neither starts nor ends with a slash.\<close>

lemma strip_edges:
  assumes "stripTrailingSlashes (stripLeadingSlashes t) \<noteq> []"
  shows "hd (stripTrailingSlashes (stripLeadingSlashes t)) \<noteq> slash"
    and "last (stripTrailingSlashes (stripLeadingSlashes t)) \<noteq> slash"
proof -
  let ?P = "\<lambda>c. c = slash"
  let ?u = "dropWhile ?P t"
  let ?w = "dropWhile ?P (rev ?u)"
  have c: "stripTrailingSlashes (stripLeadingSlashes t) = rev ?w"
    by (simp add: stripTrailingSlashes_def stripLeadingSlashes_def)
  from assms c have w: "?w \<noteq> []" by simp
  then have "\<not> ?P (hd ?w)" by (rule hd_dropWhile)
  then show "last (stripTrailingSlashes (stripLeadingSlashes t)) \<noteq> slash"
    using w by (simp add: c last_rev)
  have "rev ?u = takeWhile ?P (rev ?u) @ ?w" by simp
  then have "rev (rev ?u) = rev (takeWhile ?P (rev ?u) @ ?w)" by (rule arg_cong)
  then have u: "?u = rev ?w @ rev (takeWhile ?P (rev ?u))"
    by (simp only: rev_rev_ident rev_append)
  from w have nw: "rev ?w \<noteq> []" by simp
  with u have "hd ?u = hd (rev ?w)" by (metis hd_append2)
  moreover have "?u \<noteq> []" using u nw by (metis Nil_is_append_conv)
  then have "\<not> ?P (hd ?u)" by (rule hd_dropWhile)
  ultimately show "hd (stripTrailingSlashes (stripLeadingSlashes t)) \<noteq> slash"
    by (simp add: c)
qed

lemma core_edges:
  "core s \<noteq> [] \<Longrightarrow> hd (core s) \<noteq> slash"
  "core s \<noteq> [] \<Longrightarrow> last (core s) \<noteq> slash"
  unfolding core_def by (rule strip_edges; assumption)+

lemma hasDoubleSlash_Cons:
  "s \<noteq> [] \<Longrightarrow> hd s \<noteq> slash \<Longrightarrow> hasDoubleSlash (a # s) = hasDoubleSlash s"
  by (cases s) auto

lemma hasDoubleSlash_snoc:
  "s \<noteq> [] \<Longrightarrow> last s \<noteq> slash \<Longrightarrow> hasDoubleSlash (s @ [a]) = hasDoubleSlash s"
  by (induction s rule: hasDoubleSlash.induct) auto

lemma hasDoubleSlash_wrap:
  assumes "s \<noteq> []" "hd s \<noteq> slash" "last s \<noteq> slash"
  shows "hasDoubleSlash (a # s @ [b]) = hasDoubleSlash s"
proof -
  have "hasDoubleSlash (a # (s @ [b])) = hasDoubleSlash (s @ [b])"
    using assms by (intro hasDoubleSlash_Cons) auto
  then show ?thesis using assms by (simp add: hasDoubleSlash_snoc)
qed

text \<open>
  Claim C1, amended. For every string, \<^verbatim>\<open>normalizeRouterBase\<close> returns a string that
  starts with \<^verbatim>\<open>'/'\<close> and ends with \<^verbatim>\<open>'/'\<close>, and that contains \<^verbatim>\<open>'//'\<close> exactly when
  the core does, that is the trimmed input without its leading and trailing slashes.
  The slashes added at the two ends never form a pair with the core; a doubled slash
  inside the core is kept.
\<close>

theorem normalizeRouterBase_shape:
  "\<exists>r. normalizeRouterBase (JSString s) = Inr r \<and> startsWithSlash r \<and> endsWithSlash r \<and>
     hasDoubleSlash r = hasDoubleSlash (core s)"
proof (cases "s = [] \<or> trim s = [] \<or> s = [slash] \<or> core s = []")
  case True
  then have "normalizeRouterBase (JSString s) = Inr [slash]"
    by (simp only: normalizeRouterBase_String if_True)
  moreover from True have "\<not> hasDoubleSlash (core s)"
    by (auto simp: core_trim_Nil core_slash core_Nil)
  ultimately show ?thesis
    by (simp add: startsWithSlash_def endsWithSlash_def)
next
  case False
  then have r: "normalizeRouterBase (JSString s) = Inr (slash # core s @ [slash])"
    by (simp only: normalizeRouterBase_String if_False)
  from False have "core s \<noteq> []" by simp
  then have "hasDoubleSlash (slash # core s @ [slash]) = hasDoubleSlash (core s)"
    by (intro hasDoubleSlash_wrap core_edges)
  then show ?thesis using r
    by (simp add: startsWithSlash_def endsWithSlash_def)
qed

text \<open>
  The claim as it was stated fails: the input \<^verbatim>\<open>"a//b"\<close> has the router base
  \<^verbatim>\<open>"/a//b/"\<close>, which contains \<^verbatim>\<open>'//'\<close>.
\<close>

theorem normalizeRouterBase_double_slash_counterexample:
  "normalizeRouterBase (JSString (lit ''a//b'')) = Inr (lit ''/a//b/'') \<and>
   hasDoubleSlash (lit ''/a//b/'')"
  by (intro conjI) code_simp+

text \<open>
  Claim C7. For every string, \<^verbatim>\<open>normalizeRequestPrefix\<close> returns a string that does not
  end with \<^verbatim>\<open>'/'\<close> (the empty string ends with nothing), and that starts with \<^verbatim>\<open>'/'\<close>
  whenever it is not empty.
\<close>

theorem normalizeRequestPrefix_shape:
  "\<exists>p. normalizeRequestPrefix (JSString s) = Inr p \<and>
     \<not> endsWithSlash p \<and> (p \<noteq> [] \<longrightarrow> startsWithSlash p)"
proof (cases "s = [] \<or> trim s = [] \<or> s = [slash] \<or> core s = []")
  case True
  then have "normalizeRequestPrefix (JSString s) = Inr []"
    by (simp only: normalizeRequestPrefix_String if_True)
  then show ?thesis by (simp add: endsWithSlash_def)
next
  case False
  then have r: "normalizeRequestPrefix (JSString s) = Inr (slash # core s)"
    by (simp only: normalizeRequestPrefix_String if_False)
  from False have c: "core s \<noteq> []" by simp
  then have "last (core s) \<noteq> slash" by (rule core_edges)
  with c have "\<not> endsWithSlash (slash # core s)"
    by (cases "core s" rule: rev_cases) (simp_all add: endsWithSlash_def)
  then show ?thesis using r by (simp add: startsWithSlash_def)
qed

theorem normalizeRequestPrefix_shape_witness:
  "normalizeRequestPrefix (JSString (lit ''/v2/api/'')) = Inr (lit ''/v2/api'') \<and>
   lit ''/v2/api'' \<noteq> [] \<and> startsWithSlash (lit ''/v2/api'') \<and>
   \<not> endsWithSlash (lit ''/v2/api'')"
proof -
  have e: "normalizeRequestPrefix (JSString (lit ''/v2/api/'')) = Inr (lit ''/v2/api'')"
    by code_simp
  have n: "lit ''/v2/api'' \<noteq> []"
    by (simp add: lit_def)
  from normalizeRequestPrefix_shape [of "lit ''/v2/api/''"] e n show ?thesis
    by auto
qed

section \<open>Normalising the core again\<close>

lemma slice_inner: "slice (a # c @ [b]) 1 (- 1) = c"
  by (simp add: slice_def Let_def)

lemma slice_single: "slice [a] 1 (- 1) = []"
  by (simp add: slice_def Let_def)

lemma dropWhile_shorter:
  "dropWhile P xs \<noteq> xs \<Longrightarrow> length (dropWhile P xs) < length xs"
proof (cases xs)
  case Nil
  then show "dropWhile P xs \<noteq> xs \<Longrightarrow> ?thesis" by simp
next
  case (Cons y ys)
  assume "dropWhile P xs \<noteq> xs"
  with Cons have "P y" by (auto split: if_splits)
  then have "dropWhile P xs = dropWhile P ys" using Cons by simp
  moreover have "length (dropWhile P ys) \<le> length ys" by (rule length_dropWhile_le)
  ultimately show ?thesis using Cons by simp
qed

lemma trimEnd_length_le: "length (trimEnd s) \<le> length s"
  unfolding trimEnd_def by (simp only: length_rev) (metis length_dropWhile_le length_rev)

lemma trim_shorter: "trim s \<noteq> s \<Longrightarrow> length (trim s) < length s"
proof (cases "dropWhile isWhiteSpace s = s")
  case True
  assume "trim s \<noteq> s"
  with True have "dropWhile isWhiteSpace (rev s) \<noteq> rev s"
    by (auto simp: trim_def trimEnd_def trimStart_def)
  then have "length (dropWhile isWhiteSpace (rev s)) < length (rev s)"
    by (rule dropWhile_shorter)
  with True show ?thesis
    by (simp add: trim_def trimEnd_def trimStart_def)
next
  case False
  then have "length (dropWhile isWhiteSpace s) < length s" by (rule dropWhile_shorter)
  moreover have "length (trim s) \<le> length (dropWhile isWhiteSpace s)"
    unfolding trim_def trimStart_def by (rule trimEnd_length_le)
  ultimately show ?thesis by simp
qed

lemma core_length_le: "length (core s) \<le> length (trim s)"
proof -
  have "length (core s) \<le> length (dropWhile (\<lambda>c. c = slash) (trim s))"
    unfolding core_def stripTrailingSlashes_def stripLeadingSlashes_def
    by (simp only: length_rev) (metis length_dropWhile_le length_rev)
  also have "\<dots> \<le> length (trim s)" by (rule length_dropWhile_le)
  finally show ?thesis .
qed

lemma strip_fixed:
  assumes "c \<noteq> []" "hd c \<noteq> slash" "last c \<noteq> slash"
  shows "stripTrailingSlashes (stripLeadingSlashes c) = c"
proof -
  from assms have "dropWhile (\<lambda>x. x = slash) c = c" by (cases c) auto
  moreover from assms have "dropWhile (\<lambda>x. x = slash) (rev c) = rev c"
    by (cases c rule: rev_cases) auto
  ultimately show ?thesis
    by (simp add: stripTrailingSlashes_def stripLeadingSlashes_def)
qed

text \<open>
  Claim C8, amended. For every string \<^verbatim>\<open>x\<close>,
  \<^verbatim>\<open>normalizeRouterBase(normalizeRouterBase(x).slice(1,-1))\<close> is
  \<^verbatim>\<open>normalizeRouterBase(x)\<close> exactly when the core of \<^verbatim>\<open>x\<close> neither starts nor ends with
  white space, that is when trimming the core changes nothing. The input is trimmed
  before its slashes are stripped, so white space between an edge slash and the rest
  stays in the core, and the second call trims it away.
\<close>

theorem restripped_stable_iff:
  "restripped (JSString x) = normalizeRouterBase (JSString x) \<longleftrightarrow> trim (core x) = core x"
proof (cases "x = [] \<or> trim x = [] \<or> x = [slash] \<or> core x = []")
  case True
  then have r: "normalizeRouterBase (JSString x) = Inr [slash]"
    by (simp only: normalizeRouterBase_String if_True)
  from True have "core x = []" by (auto simp: core_trim_Nil core_slash core_Nil)
  then have "trim (core x) = core x"
    by (simp add: trim_def trimStart_def trimEnd_def)
  moreover have "restripped (JSString x) = normalizeRouterBase (JSString [])"
    by (simp add: restripped_def r slice_single)
  then have "restripped (JSString x) = Inr [slash]"
    by (simp add: normalizeRouterBase_String)
  ultimately show ?thesis using r by simp
next
  case False
  then have r: "normalizeRouterBase (JSString x) = Inr (slash # core x @ [slash])"
    by (simp only: normalizeRouterBase_String if_False)
  from False have c: "core x \<noteq> []" by simp
  then have e: "hd (core x) \<noteq> slash" "last (core x) \<noteq> slash" by (rule core_edges)+
  have rr: "restripped (JSString x) = normalizeRouterBase (JSString (core x))"
    by (simp add: restripped_def r slice_inner)
  show ?thesis
  proof (cases "trim (core x) = core x")
    case True
    then have "core (core x) = core x"
      using c e by (simp add: core_def [of "core x"] strip_fixed)
    moreover from c e have "core x \<noteq> [slash]" by auto
    ultimately have "normalizeRouterBase (JSString (core x)) = Inr (slash # core x @ [slash])"
      using c True by (simp add: normalizeRouterBase_String)
    then show ?thesis using True r rr by simp
  next
    case False
    then have "length (trim (core x)) < length (core x)" by (rule trim_shorter)
    moreover have "length (core (core x)) \<le> length (trim (core x))" by (rule core_length_le)
    ultimately have l: "length (core (core x)) < length (core x)" by simp
    then have "slash # core (core x) @ [slash] \<noteq> slash # core x @ [slash]" by auto
    moreover from c have "[slash] \<noteq> slash # core x @ [slash]" by simp
    ultimately have "normalizeRouterBase (JSString (core x)) \<noteq> Inr (slash # core x @ [slash])"
      by (simp add: normalizeRouterBase_String)
    then show ?thesis using False r rr by simp
  qed
qed

text \<open>
  The claim as it was stated fails: the input \<^verbatim>\<open>"/ a"\<close> has the router base \<^verbatim>\<open>"/ a/"\<close>,
  whose inner part \<^verbatim>\<open>" a"\<close> has the router base \<^verbatim>\<open>"/a/"\<close>.
\<close>

theorem restripped_counterexample:
  "normalizeRouterBase (JSString (lit ''/ a'')) = Inr (lit ''/ a/'') \<and>
   restripped (JSString (lit ''/ a'')) = Inr (lit ''/a/'') \<and>
   restripped (JSString (lit ''/ a'')) \<noteq> normalizeRouterBase (JSString (lit ''/ a''))"
  by (intro conjI) code_simp+

end
